theory Spec2Isabelle
  imports Complex_Main "HOL-Library.Char_ord" "HOL-Library.List_Lexorder" "HOL-Library.Sublist"
    "HOL-Library.Multiset"
begin

section \<open>JavaScript string primitives used by the frontend\<close>

text \<open>
  Strings are modelled as \<^typ>\<open>string\<close>. A character stands for the code unit of the
  same number, so the strings of the model are the JavaScript strings over U+0000 to
  U+00FF (ASCII and Latin-1): \<open>CHR 0xA0\<close> is the no-break space and \<open>CHR 0xC9\<close> is the
  capital E with acute. On these strings the definitions below are the ECMAScript ones.
\<close>

text \<open>\<open>String.prototype.split(sep)\<close> for a one-character separator: the pieces between
  the occurrences of the separator; always at least one piece.\<close>

fun split :: "char \<Rightarrow> string \<Rightarrow> string list" where
  "split sep [] = [[]]"
| "split sep (c # cs) =
     (if c = sep then [] # split sep cs
      else (case split sep cs of
              [] \<Rightarrow> [[c]]
            | p # ps \<Rightarrow> (c # p) # ps))"

text \<open>Array destructuring \<open>const [a, b] = xs\<close>: a missing element is \<open>undefined\<close>,
  modelled as \<open>None\<close>.\<close>

definition destructure2 :: "'a list \<Rightarrow> 'a option \<times> 'a option" where
  "destructure2 xs =
     (case xs of
        [] \<Rightarrow> (None, None)
      | [a] \<Rightarrow> (Some a, None)
      | a # b # _ \<Rightarrow> (Some a, Some b))"

text \<open>The characters with a lower-case mapping in the Unicode character database: the
  letters \<open>A\<close> to \<open>Z\<close> (U+0041 to U+005A) and the Latin-1 capitals U+00C0 to U+00DE
  without the multiplication sign U+00D7.\<close>

definition hasLowerCase :: "char \<Rightarrow> bool" where
  "hasLowerCase c =
     (let n = (of_char c :: nat)
      in (65 \<le> n \<and> n \<le> 90) \<or> (192 \<le> n \<and> n \<le> 222 \<and> n \<noteq> 215))"

text \<open>\<open>String.prototype.toLowerCase\<close>: each such character is replaced by its lower-case
  letter, which is 32 code points above it; every other character stays.\<close>

definition toLowerCase_char :: "char \<Rightarrow> char" where
  "toLowerCase_char c = (if hasLowerCase c then char_of (of_char c + (32::nat)) else c)"

definition toLowerCase :: "string \<Rightarrow> string" where
  "toLowerCase s = map toLowerCase_char s"

text \<open>White space and line terminators, as \<open>trim\<close> and \<open>parseInt\<close> strip them: TAB, LF,
  VT, FF, CR, SPACE and the no-break space U+00A0.\<close>

definition isWhiteSpace :: "char \<Rightarrow> bool" where
  "isWhiteSpace c =
     (c \<in> set [CHR 0x09, CHR 0x0A, CHR 0x0B, CHR 0x0C, CHR 0x0D, CHR '' '', CHR 0xA0])"

text \<open>\<open>String.prototype.trim\<close>: white space removed from both ends.\<close>

definition trim :: "string \<Rightarrow> string" where
  "trim s = rev (dropWhile isWhiteSpace (rev (dropWhile isWhiteSpace s)))"

text \<open>\<open>String.prototype.endsWith\<close>.\<close>

definition endsWith :: "string \<Rightarrow> string \<Rightarrow> bool" where
  "endsWith s suf = (length suf \<le> length s \<and> drop (length s - length suf) s = suf)"

text \<open>\<open>String.prototype.replace(pattern, replacement)\<close> for a one-character string
  pattern: only the first occurrence is replaced.\<close>

fun replace :: "char \<Rightarrow> string \<Rightarrow> string \<Rightarrow> string" where
  "replace p r [] = []"
| "replace p r (c # cs) = (if c = p then r @ cs else c # replace p r cs)"

text \<open>
  \<open>parseInt(s, 10)\<close>: leading white space is skipped, one sign is accepted, then the
  longest run of decimal digits is read; anything after it is ignored. With no digit the
  result is \<open>NaN\<close>, modelled as \<open>None\<close>. The value is modelled as an unbounded integer:
  the callers only keep it after comparing it with 0 and 150, where the double that
  JavaScript computes and the integer agree.
\<close>

definition isDigit :: "char \<Rightarrow> bool" where
  "isDigit c = (CHR ''0'' \<le> c \<and> c \<le> CHR ''9'')"

definition digitValue :: "char \<Rightarrow> int" where
  "digitValue c = int (of_char c) - 48"

definition parseInt :: "string \<Rightarrow> int option" where
  "parseInt s =
     (let t = dropWhile isWhiteSpace s;
          sign = (case t of c # _ \<Rightarrow> if c = CHR ''-'' then - 1 else 1 | [] \<Rightarrow> (1::int));
          u = (case t of c # r \<Rightarrow> if c = CHR ''-'' \<or> c = CHR ''+'' then r else t | [] \<Rightarrow> t);
          ds = takeWhile isDigit u
      in if ds = [] then None
         else Some (sign * foldl (\<lambda>a c. 10 * a + digitValue c) 0 ds))"

section \<open>Request parameters (api.ts, SalesQueryParams)\<close>

text \<open>
  The request objects are built as untyped JavaScript objects: a map from property names
  to values. A property that was never assigned is absent (\<open>None\<close>) and is not sent.
\<close>

datatype jsval = Str string | Num int | StrList "string list"

type_synonym params = "string \<rightharpoonup> jsval"

section \<open>Filter state (Filters.tsx) and the filter parameters (page.tsx)\<close>

record FilterState =
  customer_regions :: "string list"
  genders :: "string list"
  age_range :: string
  product_categories :: "string list"
  tags :: "string list"
  payment_methods :: "string list"
  date_range :: string

text \<open>The age part of \<open>buildFilterParams\<close> (page.tsx, lines 69 to 84), branch by
  branch. Lines 72 to 77: both bounds are parsed and kept together or not at all.\<close>

definition ageBoth :: "string \<Rightarrow> string \<Rightarrow> params \<Rightarrow> params" where
  "ageBoth mn mx filterParams =
     (case (parseInt mn, parseInt mx) of
        (Some ageMin, Some ageMax) \<Rightarrow>
          if ageMin \<ge> 0 \<and> ageMax \<le> 150 \<and> ageMin \<le> ageMax
          then filterParams(''age_min'' \<mapsto> Num ageMin, ''age_max'' \<mapsto> Num ageMax)
          else filterParams
      | _ \<Rightarrow> filterParams)"

text \<open>Lines 78 to 83: an open range such as \<open>65+\<close>.\<close>

definition agePlus :: "string \<Rightarrow> params \<Rightarrow> params" where
  "agePlus mn filterParams =
     (if endsWith mn ''+'' then
        (case parseInt (replace CHR ''+'' [] mn) of
           Some ageMin \<Rightarrow>
             if ageMin \<ge> 0 \<and> ageMin \<le> 150
             then filterParams(''age_min'' \<mapsto> Num ageMin)
             else filterParams
         | None \<Rightarrow> filterParams)
      else filterParams)"

text \<open>Lines 69 to 71: \<open>const [min, max] = filters.age_range.split('-')\<close>, then the test
  \<open>if (max)\<close>. A string is truthy when it is not empty; \<open>undefined\<close> (no second piece)
  is falsy. \<open>split\<close> never returns the empty array, so the first case is never taken.\<close>

definition ageParams :: "string \<Rightarrow> params \<Rightarrow> params" where
  "ageParams ageRange filterParams =
     (if ageRange \<noteq> [] then
        (case destructure2 (split CHR ''-'' ageRange) of
           (None, _) \<Rightarrow> filterParams
         | (Some mn, None) \<Rightarrow> agePlus mn filterParams
         | (Some mn, Some mx) \<Rightarrow>
             if mx \<noteq> [] then ageBoth mn mx filterParams else agePlus mn filterParams)
      else filterParams)"

text \<open>A multi-select list is sent, lower-cased, when it is not empty.\<close>

definition listParam :: "string \<Rightarrow> string list \<Rightarrow> params \<Rightarrow> params" where
  "listParam key vs filterParams =
     (if length vs > 0 then filterParams(key \<mapsto> StrList (map toLowerCase vs))
      else filterParams)"

definition dateParam :: "string \<Rightarrow> params \<Rightarrow> params" where
  "dateParam dateRange filterParams =
     (if dateRange \<noteq> [] then filterParams(''date_from'' \<mapsto> Str dateRange)
      else filterParams)"

text \<open>\<open>buildFilterParams\<close> (page.tsx, lines 61 to 99): the assignments in source order,
  starting from the empty object.\<close>

definition buildFilterParams :: "FilterState \<Rightarrow> params" where
  "buildFilterParams filters =
     dateParam (date_range filters)
      (listParam ''payment_methods'' (payment_methods filters)
        (listParam ''tags'' (tags filters)
          (listParam ''product_categories'' (product_categories filters)
            (ageParams (age_range filters)
              (listParam ''genders'' (genders filters)
                (listParam ''customer_regions'' (customer_regions filters) Map.empty))))))"

section \<open>Response types (api.ts)\<close>

text \<open>One sales transaction. \<open>age\<close> is \<open>None\<close> for a record whose age is missing or not a
  number. Two fields carry a suffix because \<open>FilterState\<close> and \<open>SummaryStats\<close> have fields
  of the same name.\<close>

record SalesTransaction =
  transaction_id :: nat
  date :: string
  customer_id :: string
  customer_name :: string
  phone_number :: string
  gender :: string
  age :: "int option"
  customer_region :: string
  customer_type :: string
  product_id :: string
  product_name :: string
  brand :: string
  product_category :: string
  tags_tx :: string
  quantity :: int
  price_per_unit :: real
  discount_percentage :: real
  total_amount_tx :: real
  final_amount :: real
  payment_method :: string
  order_status :: string
  delivery_type :: string
  store_id :: string
  store_location :: string
  salesperson_id :: string
  employee_name :: string

record SalesResponse =
  transactions :: "SalesTransaction list"
  total :: int
  page :: int
  page_size :: int
  total_pages :: int

record SummaryStats =
  total_units_sold :: int
  total_amount :: real
  total_discount :: real
  total_sales_records :: int

section \<open>The page state and \<open>fetchData\<close> (page.tsx)\<close>

text \<open>The state variables of \<open>Home\<close> that \<open>fetchData\<close> reads or writes. \<open>alerts\<close> records
  the messages shown with \<open>alert\<close>, oldest first. The suffix \<open>_st\<close> avoids the field names
  of \<open>SalesResponse\<close>.\<close>

record HomeState =
  transactions_st :: "SalesTransaction list"
  summary :: SummaryStats
  loading :: bool
  debouncedSearchQuery :: string
  filters :: FilterState
  sortBy :: string
  sortOrder :: string
  currentPage :: int
  totalPages :: int
  total_st :: int
  alerts :: "string list"

definition pageSize :: int where
  "pageSize = 10"

text \<open>The parameters of the transactions request (lines 52 to 57 and 101 to 108):
  \<open>Object.assign(params, filterParams)\<close> lets the filter parameters override.\<close>

definition transactionsParams :: "HomeState \<Rightarrow> params" where
  "transactionsParams st =
     (let params = [''page'' \<mapsto> Num (currentPage st), ''page_size'' \<mapsto> Num pageSize,
                    ''sort_by'' \<mapsto> Str (sortBy st), ''sort_order'' \<mapsto> Str (sortOrder st)];
          filterParams = buildFilterParams (filters st);
          params' = (if debouncedSearchQuery st \<noteq> [] \<and> trim (debouncedSearchQuery st) \<noteq> []
                     then params(''search'' \<mapsto> Str (trim (debouncedSearchQuery st)))
                     else params)
      in params' ++ filterParams)"

text \<open>The parameters of the summary request (line 110): a copy of the filter parameters.\<close>

definition summaryParams :: "HomeState \<Rightarrow> params" where
  "summaryParams st = buildFilterParams (filters st)"

text \<open>What \<open>await Promise.all([...])\<close> yields: both responses, or the error that is thrown.
  Of the error only \<open>error.response\<close> is read; it is absent for an error without a
  response. \<open>detail\<close> is \<open>error.response.data.detail\<close>.\<close>

record errorResponse =
  status :: int
  detail :: "string option"

datatype 'a settled = Fulfilled 'a | Rejected "errorResponse option"

text \<open>\<open>error.response?.data?.detail || 'Invalid filter parameters'\<close>.\<close>

definition errorMessage :: "errorResponse \<Rightarrow> string" where
  "errorMessage r =
     (case detail r of
        Some d \<Rightarrow> if d \<noteq> [] then d else ''Invalid filter parameters''
      | None \<Rightarrow> ''Invalid filter parameters'')"

definition emptySummary :: SummaryStats where
  "emptySummary =
     \<lparr>total_units_sold = 0, total_amount = 0, total_discount = 0, total_sales_records = 0\<rparr>"

text \<open>The \<open>else\<close> branch of the \<open>catch\<close> block (lines 144 to 152).\<close>

definition resetResults :: "HomeState \<Rightarrow> HomeState" where
  "resetResults st =
     st\<lparr>transactions_st := [], total_st := 0, totalPages := 0, summary := emptySummary\<rparr>"

text \<open>\<open>fetchData\<close> from the state and the settled requests to the state after it.\<close>

definition fetchData :: "HomeState \<Rightarrow> (SalesResponse \<times> SummaryStats) settled \<Rightarrow> HomeState" where
  "fetchData st result =
     (let st1 = st\<lparr>loading := True\<rparr>;
          st2 =
            (case result of
               Fulfilled (transactionsData, summaryData) \<Rightarrow>
                 (let st' = st1\<lparr>transactions_st := transactions transactionsData,
                                total_st := total transactionsData,
                                totalPages := total_pages transactionsData,
                                summary := summaryData\<rparr>
                  in if currentPage st > total_pages transactionsData
                        \<and> total_pages transactionsData > 0
                     then st'\<lparr>currentPage := 1\<rparr> else st')
             | Rejected error \<Rightarrow>
                 (case error of
                    Some response \<Rightarrow>
                      if status response = 400
                      then st1\<lparr>alerts := alerts st1 @ [errorMessage response]\<rparr>
                      else resetResults st1
                  | None \<Rightarrow> resetResults st1))
      in st2\<lparr>loading := False\<rparr>)"

section \<open>The sort dropdown (page.tsx, SortByDropdown)\<close>

record sortOption =
  opt_value :: string
  opt_label :: string

definition sortOptions :: "sortOption list" where
  "sortOptions =
     [\<lparr>opt_value = ''date_desc'', opt_label = ''Date (Newest First)''\<rparr>,
      \<lparr>opt_value = ''date_asc'', opt_label = ''Date (Oldest First)''\<rparr>,
      \<lparr>opt_value = ''quantity_desc'', opt_label = ''Quantity (High to Low)''\<rparr>,
      \<lparr>opt_value = ''quantity_asc'', opt_label = ''Quantity (Low to High)''\<rparr>,
      \<lparr>opt_value = ''customer_name_asc'', opt_label = ''Customer Name (A-Z)''\<rparr>,
      \<lparr>opt_value = ''customer_name_desc'', opt_label = ''Customer Name (Z-A)''\<rparr>]"

text \<open>The arguments with which clicking an option calls \<open>onSortChange\<close>:
  \<open>const [field, order] = option.value.split('_')\<close>.\<close>

definition optionClick :: "sortOption \<Rightarrow> string option \<times> string option" where
  "optionClick option = destructure2 (split CHR ''_'' (opt_value option))"

text \<open>The initial values of the state variables (the \<open>useState\<close> calls of \<open>Home\<close>).\<close>

definition initialState :: HomeState where
  "initialState =
     \<lparr>transactions_st = [],
      summary = \<lparr>total_units_sold = 0, total_amount = 0, total_discount = 0,
                  total_sales_records = 0\<rparr>,
      loading = True,
      debouncedSearchQuery = [],
      filters = \<lparr>customer_regions = [], genders = [], age_range = [],
                  product_categories = [], tags = [], payment_methods = [], date_range = []\<rparr>,
      sortBy = ''date'',
      sortOrder = ''desc'',
      currentPage = 1,
      totalPages = 1,
      total_st = 0,
      alerts = []\<rparr>"

section \<open>The query engine behind the API\<close>

text \<open>
  The backend that answers the two requests is not among the source files. Its parts are
  modelled from the specification (sections 4 and 7) and from the implementation
  summaries of the README; each definition says so. The engine reads the search term and
  the filters from the request parameters; a parameter of the wrong type is read as absent
  (the boundary layer validates the types).
\<close>

text \<open>Modelled from the spec: the error kind \<open>ValidationError\<close> of section 7, with its
  descriptive message; the backend's error type is missing from the sources.\<close>

datatype error = ValidationError string

text \<open>Modelled from the spec: how the engine reads a parameter of the decoded query
  (sections 3 and 6); the backend's request decoding is missing from the sources.\<close>

definition getStr :: "params \<Rightarrow> string \<Rightarrow> string option" where
  "getStr q k = (case q k of Some (Str s) \<Rightarrow> Some s | _ \<Rightarrow> None)"

definition getNum :: "params \<Rightarrow> string \<Rightarrow> int option" where
  "getNum q k = (case q k of Some (Num n) \<Rightarrow> Some n | _ \<Rightarrow> None)"

definition getList :: "params \<Rightarrow> string \<Rightarrow> string list" where
  "getList q k = (case q k of Some (StrList vs) \<Rightarrow> vs | _ \<Rightarrow> [])"

subsection \<open>Predicate Builder\<close>

text \<open>Modelled from the spec: the substring test of the search (section 4.1); the
  backend's search code is missing from the sources. \<open>contains hay needle\<close> holds when
  \<open>needle\<close> occurs in \<open>hay\<close>.\<close>

fun contains :: "string \<Rightarrow> string \<Rightarrow> bool" where
  "contains [] needle = (needle = [])"
| "contains (c # cs) needle = (prefix needle (c # cs) \<or> contains cs needle)"

text \<open>Modelled from the spec: the case-insensitive substring match of section 4.1 (the
  backend's search code is missing).\<close>

definition icontains :: "string \<Rightarrow> string \<Rightarrow> bool" where
  "icontains field needle = contains (toLowerCase field) (toLowerCase needle)"

text \<open>Modelled from the spec: the decimal string form by which numeric fields are
  searched (section 4.1; the backend's search code is missing).\<close>

function decimal :: "nat \<Rightarrow> string" where
  "decimal n =
     (if n < 10 then [char_of (48 + n)]
      else decimal (n div 10) @ [char_of (48 + n mod 10)])"
  by pat_completeness auto
termination
  by (relation "measure id") auto

declare decimal.simps [simp del]

text \<open>Modelled from the spec: the fixed set of searchable fields of section 4.1, the phone
  number in its raw and its digit-normalized form (the backend's search code is
  missing).\<close>

definition searchableFields :: "SalesTransaction \<Rightarrow> string list" where
  "searchableFields r =
     [customer_name r, phone_number r, filter isDigit (phone_number r),
      decimal (transaction_id r), customer_id r, product_id r, product_name r,
      employee_name r, store_id r, store_location r, brand r, customer_type r,
      order_status r, delivery_type r]"

text \<open>Modelled from the spec: the search predicate of section 4.1, the OR of the per-field
  tests; an absent term and a term that is empty after trimming are no constraint (the
  backend's search code is missing).\<close>

definition searchPredicate :: "string option \<Rightarrow> SalesTransaction \<Rightarrow> bool" where
  "searchPredicate search r =
     (case search of
        None \<Rightarrow> True
      | Some s \<Rightarrow>
          if trim s = [] then True
          else list_ex (\<lambda>field. icontains field (trim s)) (searchableFields r))"

text \<open>Modelled from the spec: a set-membership filter of section 4.1; both sides are
  lower-cased, and an empty requested set is no constraint (the backend's filter code is
  missing).\<close>

definition memberOf :: "string list \<Rightarrow> string \<Rightarrow> bool" where
  "memberOf requested v =
     (requested = [] \<or> toLowerCase v \<in> set (map toLowerCase requested))"

text \<open>Modelled from the spec: the tags of a record, a comma-separated label set
  (section 3; the backend's filter code is missing).\<close>

definition recordTags :: "SalesTransaction \<Rightarrow> string list" where
  "recordTags r = map trim (split CHR '','' (tags_tx r))"

text \<open>Modelled from the spec: the tags filter of section 4.1; a record matches when any
  of its tags is in the requested set (the backend's filter code is missing).\<close>

definition tagsMatch :: "string list \<Rightarrow> SalesTransaction \<Rightarrow> bool" where
  "tagsMatch requested r =
     (requested = []
      \<or> list_ex (\<lambda>t. toLowerCase t \<in> set (map toLowerCase requested)) (recordTags r))"

text \<open>Modelled from the spec: the age range filter of section 4.1, both bounds optional;
  a record without a valid age matches no age constraint (section 7). The backend's
  filter code is missing.\<close>

definition ageMatch :: "int option \<Rightarrow> int option \<Rightarrow> SalesTransaction \<Rightarrow> bool" where
  "ageMatch lo hi r =
     (if lo = None \<and> hi = None then True
      else (case age r of
              None \<Rightarrow> False
            | Some a \<Rightarrow> (case lo of None \<Rightarrow> True | Some l \<Rightarrow> l \<le> a)
                       \<and> (case hi of None \<Rightarrow> True | Some h \<Rightarrow> a \<le> h)))"

text \<open>Modelled from the spec: the date lower bound of section 4.1, inclusive (the
  backend's filter code is missing). Dates are ISO strings (\<open>YYYY-MM-DD\<close>, as
  \<open>Filters.tsx\<close> produces them), for which the order of strings is the order of days.\<close>

definition dateMatch :: "string option \<Rightarrow> SalesTransaction \<Rightarrow> bool" where
  "dateMatch date_from r = (case date_from of None \<Rightarrow> True | Some d \<Rightarrow> d \<le> date r)"

text \<open>Modelled from the spec: the Predicate Builder of section 4.1; the search predicate
  and all filter predicates are combined with AND (the backend's filter code is
  missing).\<close>

definition predicate :: "params \<Rightarrow> SalesTransaction \<Rightarrow> bool" where
  "predicate q r =
     (searchPredicate (getStr q ''search'') r
      \<and> memberOf (getList q ''customer_regions'') (customer_region r)
      \<and> memberOf (getList q ''genders'') (gender r)
      \<and> memberOf (getList q ''product_categories'') (product_category r)
      \<and> tagsMatch (getList q ''tags'') r
      \<and> memberOf (getList q ''payment_methods'') (payment_method r)
      \<and> ageMatch (getNum q ''age_min'') (getNum q ''age_max'') r
      \<and> dateMatch (getStr q ''date_from'') r)"

text \<open>Modelled from the spec: the validation of the filter arguments (sections 4.1
  and 7): \<open>age_min > age_max\<close> is rejected (the backend's validation code is missing).\<close>

definition validateFilters :: "params \<Rightarrow> error option" where
  "validateFilters q =
     (case (getNum q ''age_min'', getNum q ''age_max'') of
        (Some lo, Some hi) \<Rightarrow>
          if lo > hi then Some (ValidationError ''age_min cannot be greater than age_max'')
          else None
      | _ \<Rightarrow> None)"

subsection \<open>Filter Evaluator\<close>

text \<open>Modelled from the spec: the Filter Evaluator of section 4.2; the matching records in
  their original order (the backend's filter code is missing).\<close>

definition evaluate ::
  "SalesTransaction list \<Rightarrow> (SalesTransaction \<Rightarrow> bool) \<Rightarrow> SalesTransaction list" where
  "evaluate dataset pred = filter pred dataset"

subsection \<open>Sorter\<close>

text \<open>Modelled from the spec: the supported sort fields and the two directions of
  section 4.3; the backend's sort code is missing from the sources.\<close>

datatype sort_field = Date | Quantity | Customer_name

datatype direction = Asc | Desc

text \<open>Modelled from the spec: the comparators of section 4.3; the backend's sort code is
  missing. The key of \<open>customer_name\<close> is the lower-cased name.\<close>

fun keyLe :: "sort_field \<Rightarrow> SalesTransaction \<Rightarrow> SalesTransaction \<Rightarrow> bool" where
  "keyLe Date a b = (date a \<le> date b)"
| "keyLe Quantity a b = (quantity a \<le> quantity b)"
| "keyLe Customer_name a b = (toLowerCase (customer_name a) \<le> toLowerCase (customer_name b))"

text \<open>Modelled from the spec: two records have equal sort keys (section 4.3; the
  backend's sort code is missing).\<close>

fun sameKey :: "sort_field \<Rightarrow> SalesTransaction \<Rightarrow> SalesTransaction \<Rightarrow> bool" where
  "sameKey Date a b = (date a = date b)"
| "sameKey Quantity a b = (quantity a = quantity b)"
| "sameKey Customer_name a b = (toLowerCase (customer_name a) = toLowerCase (customer_name b))"

text \<open>Modelled from the spec: the direction of section 4.3; descending is the same
  comparator reversed (the backend's sort code is missing).\<close>

fun before :: "sort_field \<Rightarrow> direction \<Rightarrow> SalesTransaction \<Rightarrow> SalesTransaction \<Rightarrow> bool" where
  "before f Asc a b = keyLe f a b"
| "before f Desc a b = keyLe f b a"

text \<open>Modelled from the spec: the merging step of the stable sort of section 4.3 (the
  backend's sort code is missing). On a tie the element of the left list goes first.\<close>

fun merge :: "('a \<Rightarrow> 'a \<Rightarrow> bool) \<Rightarrow> 'a list \<Rightarrow> 'a list \<Rightarrow> 'a list" where
  "merge le [] ys = ys"
| "merge le xs [] = xs"
| "merge le (x # xs) (y # ys) =
     (if le x y then x # merge le xs (y # ys) else y # merge le (x # xs) ys)"

text \<open>Modelled from the spec: the stable sort of section 4.3, as the merge sort that the
  README names (\<open>sort_values\<close> with \<open>kind='mergesort'\<close>); the backend's sort code is
  missing.\<close>

function mergesort :: "('a \<Rightarrow> 'a \<Rightarrow> bool) \<Rightarrow> 'a list \<Rightarrow> 'a list" where
  "mergesort le xs =
     (if length xs \<le> 1 then xs
      else merge le (mergesort le (take (length xs div 2) xs))
                    (mergesort le (drop (length xs div 2) xs)))"
  by pat_completeness auto
termination
  by (relation "measure (\<lambda>(le, xs). length xs)") auto

declare mergesort.simps [simp del]

text \<open>Modelled from the spec: the Sorter of section 4.3 (the backend's sort code is
  missing).\<close>

definition sorter ::
  "SalesTransaction list \<Rightarrow> sort_field \<Rightarrow> direction \<Rightarrow> SalesTransaction list" where
  "sorter xs f d = mergesort (before f d) xs"

subsection \<open>Paginator\<close>

text \<open>Modelled from the spec: the Paginator of section 4.4 with the slicing that the
  README describes (\<open>skip = (page - 1) * page_size\<close>, then \<open>iloc\<close> slicing); the backend
  pagination code is missing. The result is the page and the number of pages.\<close>

definition paginate :: "'a list \<Rightarrow> int \<Rightarrow> int \<Rightarrow> error + ('a list \<times> int)" where
  "paginate ordered pg psize =
     (if pg < 1 then Inl (ValidationError ''page must be at least 1'')
      else if psize < 1 then Inl (ValidationError ''page_size must be at least 1'')
      else
        (let skip = (pg - 1) * psize
         in Inr (take (nat psize) (drop (nat skip) ordered),
                 \<lceil>real (length ordered) / real_of_int psize\<rceil>)))"

subsection \<open>Aggregator\<close>

text \<open>Modelled from the spec: the Aggregator of section 4.5; the backend's summary code
  is missing from the sources.\<close>

definition aggregate :: "SalesTransaction list \<Rightarrow> SummaryStats" where
  "aggregate filtered =
     \<lparr>total_units_sold = sum_list (map quantity filtered),
      total_amount = sum_list (map total_amount_tx filtered),
      total_discount =
        sum_list (map (\<lambda>r. total_amount_tx r * discount_percentage r / 100) filtered),
      total_sales_records = int (length filtered)\<rparr>"

subsection \<open>The two queries\<close>

text \<open>Modelled from the spec: the supported sort fields and directions (section 4.3); any
  other value fails validation (section 7). The backend's validation code is missing.\<close>

definition decodeSort :: "params \<Rightarrow> (sort_field \<times> direction) option" where
  "decodeSort q =
     (case (getStr q ''sort_by'', getStr q ''sort_order'') of
        (Some f, Some d) \<Rightarrow>
          (case (if f = ''date'' then Some Date
                 else if f = ''quantity'' then Some Quantity
                 else if f = ''customer_name'' then Some Customer_name
                 else None,
                 if d = ''asc'' then Some Asc else if d = ''desc'' then Some Desc else None) of
             (Some field, Some dir) \<Rightarrow> Some (field, dir)
           | _ \<Rightarrow> None)
      | _ \<Rightarrow> None)"

text \<open>Modelled from the spec: the paginated query (section 2, branch A): validate, filter,
  sort, paginate; \<open>total\<close> is the number of matching records (\<open>total_matched\<close>). The
  backend's transactions endpoint is missing from the sources.\<close>

definition queryTransactions :: "SalesTransaction list \<Rightarrow> params \<Rightarrow> error + SalesResponse" where
  "queryTransactions dataset q =
     (case validateFilters q of
        Some e \<Rightarrow> Inl e
      | None \<Rightarrow>
          (case decodeSort q of
             None \<Rightarrow> Inl (ValidationError ''unknown sort field or direction'')
           | Some (field, dir) \<Rightarrow>
               (case (getNum q ''page'', getNum q ''page_size'') of
                  (Some pg, Some psize) \<Rightarrow>
                    (let filtered = evaluate dataset (predicate q) in
                     case paginate (sorter filtered field dir) pg psize of
                       Inl e \<Rightarrow> Inl e
                     | Inr (rows, pages) \<Rightarrow>
                         Inr \<lparr>transactions = rows, total = int (length filtered),
                              page = pg, page_size = psize, total_pages = pages\<rparr>)
                | _ \<Rightarrow> Inl (ValidationError ''page and page_size are required''))))"

text \<open>Modelled from the spec: the summary query (section 2, branch B): validate, filter,
  aggregate. The backend's summary endpoint is missing from the sources.\<close>

definition querySummary :: "SalesTransaction list \<Rightarrow> params \<Rightarrow> error + SummaryStats" where
  "querySummary dataset q =
     (case validateFilters q of
        Some e \<Rightarrow> Inl e
      | None \<Rightarrow> Inr (aggregate (evaluate dataset (predicate q))))"

section \<open>Sample data\<close>

definition alice :: SalesTransaction where
  "alice =
     \<lparr>transaction_id = 1, date = ''2023-03-14'', customer_id = ''CUST001'',
      customer_name = ''Alice'', phone_number = ''+91 9876543210'', gender = ''Female'',
      age = Some 30, customer_region = ''North'', customer_type = ''Returning'',
      product_id = ''PROD010'', product_name = ''Kettle'', brand = ''Acme'',
      product_category = ''Kitchen'', tags_tx = ''home, steel'', quantity = 2,
      price_per_unit = 100, discount_percentage = 10, total_amount_tx = 200,
      final_amount = 180, payment_method = ''UPI'', order_status = ''Completed'',
      delivery_type = ''Standard'', store_id = ''ST01'', store_location = ''Delhi'',
      salesperson_id = ''EMP07'', employee_name = ''Ravi''\<rparr>"

definition bob :: SalesTransaction where
  "bob = alice\<lparr>transaction_id := 2, date := ''2023-05-02'', customer_id := ''CUST002'',
     customer_name := ''bob'', phone_number := ''+91 9123456780'', gender := ''Male'',
     age := Some 20, quantity := 5, total_amount_tx := 500, final_amount := 450\<rparr>"

definition alice2 :: SalesTransaction where
  "alice2 = alice\<lparr>transaction_id := 3, date := ''2023-01-20'', customer_id := ''CUST003'',
     customer_name := ''alice'', age := None, quantity := 1, total_amount_tx := 100,
     final_amount := 90\<rparr>"

text \<open>Three records whose names differ only by case; the first letter is the e with
  acute, small (U+00E9) in the first and the third name and capital (U+00C9) in the
  second.\<close>

definition elodie21 :: SalesTransaction where
  "elodie21 = alice\<lparr>transaction_id := 21, customer_name := CHR 0xE9 # ''lodie''\<rparr>"

definition elodie22 :: SalesTransaction where
  "elodie22 = alice\<lparr>transaction_id := 22, customer_name := CHR 0xC9 # ''LODIE''\<rparr>"

definition elodie23 :: SalesTransaction where
  "elodie23 = alice\<lparr>transaction_id := 23, customer_name := CHR 0xE9 # ''lodie''\<rparr>"

definition sampleDataset :: "SalesTransaction list" where
  "sampleDataset = [bob, alice, alice2]"

text \<open>States of the page and error responses used as examples.\<close>

definition maleOnly :: HomeState where
  "maleOnly = initialState\<lparr>filters := (filters initialState)\<lparr>genders := [''Male'']\<rparr>\<rparr>"

definition blankSearch :: HomeState where
  "blankSearch = initialState\<lparr>debouncedSearchQuery := [CHR '' '', CHR 0xA0, CHR 0x09]\<rparr>"

definition mixedCase :: HomeState where
  "mixedCase =
     initialState\<lparr>filters := (filters initialState)
       \<lparr>customer_regions := [CHR 0xCE # ''le-de-France'', ''NORTH''],
        genders := [''Male'', ''FEMALE'']\<rparr>\<rparr>"

definition ageRequest :: "string \<Rightarrow> jsval option \<times> jsval option" where
  "ageRequest ageRange =
     (buildFilterParams ((filters initialState)\<lparr>age_range := ageRange\<rparr>) ''age_min'',
      buildFilterParams ((filters initialState)\<lparr>age_range := ageRange\<rparr>) ''age_max'')"

definition loaded :: HomeState where
  "loaded = initialState\<lparr>transactions_st := [bob], total_st := 1, totalPages := 1,
     summary := \<lparr>total_units_sold = 5, total_amount = 500, total_discount = 50,
                 total_sales_records = 1\<rparr>\<rparr>"

definition badRequest :: errorResponse where
  "badRequest = \<lparr>status = 400, detail = Some ''age_min cannot be greater than age_max''\<rparr>"

definition serverError :: errorResponse where
  "serverError = \<lparr>status = 500, detail = None\<rparr>"

definition paddedSearch :: HomeState where
  "paddedSearch = initialState\<lparr>debouncedSearchQuery := CHR 0xA0 # '' bob '' @ [CHR 0xA0]\<rparr>"

definition sinceMarch :: HomeState where
  "sinceMarch = initialState\<lparr>filters := (filters initialState)\<lparr>date_range := ''2023-03-01''\<rparr>\<rparr>"

section \<open>Facts about the string primitives\<close>

lemma split_not_Nil: "split sep s \<noteq> []"
  by (induction s) (auto split: list.splits)

text \<open>The first piece of a split always exists: the destructuring of \<open>buildFilterParams\<close>
  always binds \<open>min\<close>.\<close>

lemma destructure2_split: "\<exists>mn mx. destructure2 (split sep s) = (Some mn, mx)"
  using split_not_Nil[of sep s]
  by (cases "split sep s") (auto simp: destructure2_def split: list.splits)

lemma split_no_sep: "sep \<notin> set a \<Longrightarrow> split sep a = [a]"
  by (induction a) (auto split: list.splits)

lemma split_at_first: "sep \<notin> set a \<Longrightarrow> split sep (a @ sep # r) = a # split sep r"
  by (induction a) (auto split: list.splits)

lemma replace_at_first: "p \<notin> set u \<Longrightarrow> replace p r (u @ p # v) = u @ r @ v"
  by (induction u) auto

lemma endsWith_last: "endsWith s [c] \<longleftrightarrow> s \<noteq> [] \<and> last s = c"
proof (cases s rule: rev_cases)
  case Nil
  then show ?thesis by (simp add: endsWith_def)
next
  case (snoc ys y)
  then show ?thesis by (simp add: endsWith_def)
qed

text \<open>The first two pieces of a string, read off the string itself.\<close>

lemma pieces_two:
  assumes "CHR ''-'' \<notin> set a" and "CHR ''-'' \<notin> set b"
    and "rest = [] \<or> hd rest = CHR ''-''"
  shows "destructure2 (split CHR ''-'' (a @ CHR ''-'' # b @ rest)) = (Some a, Some b)"
proof (cases rest)
  case Nil
  then show ?thesis
    using assms by (simp add: split_at_first split_no_sep destructure2_def)
next
  case (Cons c cs)
  then have "rest = CHR ''-'' # cs" using assms(3) by simp
  then show ?thesis
    using assms(1,2) by (simp add: split_at_first destructure2_def)
qed

lemma pieces_one:
  assumes "CHR ''-'' \<notin> set a"
    and "r = a \<or> (r = a @ CHR ''-'' # rest \<and> (rest = [] \<or> hd rest = CHR ''-''))"
  shows "\<exists>mx. destructure2 (split CHR ''-'' r) = (Some a, mx) \<and> (mx = None \<or> mx = Some [])"
proof -
  consider "r = a" | "r = a @ [CHR ''-'']" | cs where "r = a @ CHR ''-'' # CHR ''-'' # cs"
    using assms(2) by (cases rest) auto
  then show ?thesis
  proof cases
    case 1
    then show ?thesis using assms(1) by (simp add: split_no_sep destructure2_def)
  next
    case 2
    then show ?thesis using assms(1) by (simp add: split_at_first destructure2_def)
  next
    case 3
    then show ?thesis using assms(1) by (simp add: split_at_first destructure2_def)
  qed
qed

text \<open>Every string either has no separator, or it has a first piece, a second piece and
  a rest that is empty or starts with the separator: the cases by which the age bounds
  are described cover every string.\<close>

lemma first_pieces_cases:
  "(sep \<notin> set r)
   \<or> (\<exists>a b rest. r = a @ sep # b @ rest \<and> sep \<notin> set a \<and> sep \<notin> set b
          \<and> (rest = [] \<or> hd rest = sep))"
proof (cases "sep \<in> set r")
  case False
  then show ?thesis by simp
next
  case True
  let ?a = "takeWhile (\<lambda>c. c \<noteq> sep) r" and ?t = "dropWhile (\<lambda>c. c \<noteq> sep) r"
  have t: "?t \<noteq> []" using True by (simp add: dropWhile_eq_Nil_conv)
  then have "hd ?t = sep" using hd_dropWhile[of "\<lambda>c. c \<noteq> sep" r] by simp
  then obtain r' where r': "?t = sep # r'" using t by (cases ?t) auto
  let ?b = "takeWhile (\<lambda>c. c \<noteq> sep) r'" and ?rest = "dropWhile (\<lambda>c. c \<noteq> sep) r'"
  have "r = ?a @ sep # ?b @ ?rest"
    using takeWhile_dropWhile_id[of "\<lambda>c. c \<noteq> sep" r] r' by simp
  moreover have "sep \<notin> set ?a" "sep \<notin> set ?b"
    by (auto dest: set_takeWhileD)
  moreover have "?rest = [] \<or> hd ?rest = sep"
    using hd_dropWhile[of "\<lambda>c. c \<noteq> sep" r'] by auto
  ultimately show ?thesis by blast
qed

lemma toLowerCase_char_idem: "toLowerCase_char (toLowerCase_char c) = toLowerCase_char c"
  unfolding toLowerCase_char_def hasLowerCase_def Let_def
  by (auto simp: of_char_of)

lemma toLowerCase_idem: "toLowerCase (toLowerCase s) = toLowerCase s"
  by (simp add: toLowerCase_def toLowerCase_char_idem)

lemma dropWhile_all_Nil: "(\<forall>x\<in>set (dropWhile P xs). P x) \<longleftrightarrow> dropWhile P xs = []"
proof
  assume h: "\<forall>x\<in>set (dropWhile P xs). P x"
  show "dropWhile P xs = []"
  proof (rule ccontr)
    assume n: "dropWhile P xs \<noteq> []"
    then have "\<not> P (hd (dropWhile P xs))" by (rule hd_dropWhile)
    moreover have "hd (dropWhile P xs) \<in> set (dropWhile P xs)" using n by simp
    ultimately show False using h by blast
  qed
qed (auto dest: set_dropWhileD)

lemma trim_eq_Nil_iff: "trim s = [] \<longleftrightarrow> list_all isWhiteSpace s"
  by (simp add: trim_def list_all_iff dropWhile_all_Nil)

section \<open>Facts about the request parameters\<close>

lemma listParam_other: "k \<noteq> key \<Longrightarrow> listParam key vs p k = p k"
  by (simp add: listParam_def)

lemma listParam_same:
  "listParam key vs p key = (if vs \<noteq> [] then Some (StrList (map toLowerCase vs)) else p key)"
  by (simp add: listParam_def)

lemma dateParam_other: "k \<noteq> ''date_from'' \<Longrightarrow> dateParam d p k = p k"
  by (simp add: dateParam_def)

lemma ageBoth_other: "k \<noteq> ''age_min'' \<Longrightarrow> k \<noteq> ''age_max'' \<Longrightarrow> ageBoth mn mx p k = p k"
  by (simp add: ageBoth_def split: option.splits)

lemma agePlus_other: "k \<noteq> ''age_min'' \<Longrightarrow> agePlus mn p k = p k"
  by (simp add: agePlus_def split: option.splits)

lemma ageParams_other: "k \<noteq> ''age_min'' \<Longrightarrow> k \<noteq> ''age_max'' \<Longrightarrow> ageParams r p k = p k"
  by (simp add: ageParams_def ageBoth_other agePlus_other split: option.splits prod.splits)

lemma buildFilterParams_search: "buildFilterParams fs ''search'' = None"
  by (simp add: buildFilterParams_def listParam_other dateParam_other ageParams_other)

lemma buildFilterParams_date_to: "buildFilterParams fs ''date_to'' = None"
  by (simp add: buildFilterParams_def listParam_other dateParam_other ageParams_other)

lemma buildFilterParams_date_from:
  "buildFilterParams fs ''date_from''
     = (if date_range fs \<noteq> [] then Some (Str (date_range fs)) else None)"
  by (simp add: buildFilterParams_def listParam_other dateParam_def ageParams_other)

lemma buildFilterParams_lists:
  "buildFilterParams fs ''customer_regions'' =
     (if customer_regions fs \<noteq> [] then Some (StrList (map toLowerCase (customer_regions fs)))
      else None)"
  "buildFilterParams fs ''genders'' =
     (if genders fs \<noteq> [] then Some (StrList (map toLowerCase (genders fs))) else None)"
  "buildFilterParams fs ''product_categories'' =
     (if product_categories fs \<noteq> []
      then Some (StrList (map toLowerCase (product_categories fs))) else None)"
  "buildFilterParams fs ''tags'' =
     (if tags fs \<noteq> [] then Some (StrList (map toLowerCase (tags fs))) else None)"
  "buildFilterParams fs ''payment_methods'' =
     (if payment_methods fs \<noteq> [] then Some (StrList (map toLowerCase (payment_methods fs)))
      else None)"
  by (simp_all add: buildFilterParams_def listParam_other listParam_same dateParam_other
        ageParams_other)

lemma ageParams_from_empty:
  assumes "p ''age_min'' = None" and "p ''age_max'' = None"
    and "k = ''age_min'' \<or> k = ''age_max''"
  shows "ageParams r p k = ageParams r Map.empty k"
  using assms
  by (auto simp: ageParams_def ageBoth_def agePlus_def split: option.splits prod.splits)

lemma buildFilterParams_age:
  "buildFilterParams fs ''age_min'' = ageParams (age_range fs) Map.empty ''age_min''"
  "buildFilterParams fs ''age_max'' = ageParams (age_range fs) Map.empty ''age_max''"
proof -
  let ?p = "listParam ''genders'' (genders fs)
              (listParam ''customer_regions'' (customer_regions fs) Map.empty)"
  have e: "?p ''age_min'' = None" "?p ''age_max'' = None"
    by (simp_all add: listParam_other)
  show "buildFilterParams fs ''age_min'' = ageParams (age_range fs) Map.empty ''age_min''"
    using ageParams_from_empty[OF e, of "''age_min''"]
    by (simp add: buildFilterParams_def listParam_other dateParam_other)
  show "buildFilterParams fs ''age_max'' = ageParams (age_range fs) Map.empty ''age_max''"
    using ageParams_from_empty[OF e, of "''age_max''"]
    by (simp add: buildFilterParams_def listParam_other dateParam_other)
qed

text \<open>The age parameters in terms of the two pieces.\<close>

lemma age_pair_both:
  assumes "destructure2 (split CHR ''-'' r) = (Some a, Some b)" and "b \<noteq> []"
  shows "(ageParams r Map.empty ''age_min'', ageParams r Map.empty ''age_max'') =
           (case (parseInt a, parseInt b) of
              (Some x, Some y) \<Rightarrow>
                if 0 \<le> x \<and> x \<le> y \<and> y \<le> 150 then (Some (Num x), Some (Num y))
                else (None, None)
            | _ \<Rightarrow> (None, None))"
proof -
  have "r \<noteq> []" using assms by (auto simp: destructure2_def)
  then show ?thesis
    using assms by (auto simp: ageParams_def ageBoth_def split: option.splits)
qed

lemma age_pair_plus:
  assumes "destructure2 (split CHR ''-'' r) = (Some a, mx)" and "mx = None \<or> mx = Some []"
  shows "(ageParams r Map.empty ''age_min'', ageParams r Map.empty ''age_max'') =
           (if a \<noteq> [] \<and> last a = CHR ''+'' then
              (case parseInt (replace CHR ''+'' [] a) of
                 Some n \<Rightarrow> if 0 \<le> n \<and> n \<le> 150 then (Some (Num n), None) else (None, None)
               | None \<Rightarrow> (None, None))
            else (None, None))"
proof (cases "r = []")
  case True
  then have "a = []" using assms(1) by (simp add: destructure2_def)
  then show ?thesis using True by (simp add: ageParams_def)
next
  case False
  then show ?thesis
    using assms
    by (auto simp: ageParams_def agePlus_def endsWith_last split: option.splits)
qed

lemma transactionsParams_filter_key:
  "k \<notin> {''page'', ''page_size'', ''sort_by'', ''sort_order'', ''search''} \<Longrightarrow>
   transactionsParams st k = buildFilterParams (filters st) k"
  by (auto simp: transactionsParams_def Let_def map_add_def split: option.splits)

lemma transactionsParams_search:
  "transactionsParams st ''search'' =
     (if trim (debouncedSearchQuery st) \<noteq> []
      then Some (Str (trim (debouncedSearchQuery st))) else None)"
  by (auto simp: transactionsParams_def Let_def map_add_def buildFilterParams_search trim_def)

section \<open>Facts about the query engine\<close>

lemma predicate_cong:
  assumes "getStr p ''search'' = getStr q ''search''"
    and "\<forall>k\<in>{''customer_regions'', ''genders'', ''product_categories'', ''tags'',
              ''payment_methods'', ''age_min'', ''age_max'', ''date_from''}. p k = q k"
  shows "predicate p = predicate q"
  using assms by (auto simp: predicate_def getStr_def getNum_def getList_def fun_eq_iff)

lemma predicate_same_filters:
  assumes "trim (debouncedSearchQuery st) = []"
  shows "predicate (transactionsParams st) = predicate (summaryParams st)"
proof (rule predicate_cong)
  show "getStr (transactionsParams st) ''search'' = getStr (summaryParams st) ''search''"
    using assms
    by (simp add: getStr_def transactionsParams_search summaryParams_def buildFilterParams_search)
  show "\<forall>k\<in>{''customer_regions'', ''genders'', ''product_categories'', ''tags'',
              ''payment_methods'', ''age_min'', ''age_max'', ''date_from''}.
          transactionsParams st k = summaryParams st k"
    by (simp add: transactionsParams_filter_key summaryParams_def)
qed

lemma predicate_no_constraints:
  assumes "q ''search'' = None" and "q ''customer_regions'' = None" and "q ''genders'' = None"
    and "q ''product_categories'' = None" and "q ''tags'' = None"
    and "q ''payment_methods'' = None" and "q ''age_min'' = None" and "q ''age_max'' = None"
    and "q ''date_from'' = None"
  shows "predicate q r"
  using assms
  by (simp add: predicate_def getStr_def getList_def getNum_def searchPredicate_def
        memberOf_def tagsMatch_def ageMatch_def dateMatch_def)

subsection \<open>Merge sort\<close>

lemma set_merge: "set (merge le xs ys) = set xs \<union> set ys"
  by (induction le xs ys rule: merge.induct) auto

lemma mset_merge: "mset (merge le xs ys) = mset xs + mset ys"
  by (induction le xs ys rule: merge.induct) auto

lemma sorted_wrt_merge:
  "\<forall>x y. le x y \<or> le y x \<Longrightarrow> \<forall>x y z. le x y \<longrightarrow> le y z \<longrightarrow> le x z \<Longrightarrow>
   sorted_wrt le xs \<Longrightarrow> sorted_wrt le ys \<Longrightarrow> sorted_wrt le (merge le xs ys)"
proof (induction le xs ys rule: merge.induct)
  case (1 le ys)
  then show ?case by simp
next
  case (2 le v va)
  then show ?case by simp
next
  case (3 le x xs y ys)
  note total = "3.prems"(1) and trans = "3.prems"(2)
  have sx: "sorted_wrt le xs" and hx: "\<forall>z\<in>set xs. le x z"
    using "3.prems"(3) by simp_all
  have sy: "sorted_wrt le ys" and hy: "\<forall>z\<in>set ys. le y z"
    using "3.prems"(4) by simp_all
  show ?case
  proof (cases "le x y")
    case True
    have "le x z" if "z \<in> set (merge le xs (y # ys))" for z
    proof -
      from that consider "z \<in> set xs" | "z = y" | "z \<in> set ys"
        unfolding set_merge by auto
      then show ?thesis
      proof cases
        case 1 then show ?thesis using hx by blast
      next
        case 2 then show ?thesis using True by simp
      next
        case 3
        then have "le y z" using hy by blast
        then show ?thesis using True trans by blast
      qed
    qed
    moreover have "sorted_wrt le (merge le xs (y # ys))"
      by (rule "3.IH"(1)[OF True total trans sx "3.prems"(4)])
    ultimately show ?thesis using True by simp
  next
    case False
    then have yx: "le y x" using total by blast
    have "le y z" if "z \<in> set (merge le (x # xs) ys)" for z
    proof -
      from that consider "z \<in> set xs" | "z = x" | "z \<in> set ys"
        unfolding set_merge by auto
      then show ?thesis
      proof cases
        case 1
        then have "le x z" using hx by blast
        then show ?thesis using yx trans by blast
      next
        case 2 then show ?thesis using yx by simp
      next
        case 3 then show ?thesis using hy by blast
      qed
    qed
    moreover have "sorted_wrt le (merge le (x # xs) ys)"
      by (rule "3.IH"(2)[OF False total trans "3.prems"(3) sy])
    ultimately show ?thesis using False by simp
  qed
qed

text \<open>Merging is stable for a class \<open>P\<close> of tied elements: those of the left list stay in
  front of those of the right list.\<close>

lemma filter_merge:
  "\<forall>x y z. le x y \<longrightarrow> le y z \<longrightarrow> le x z \<Longrightarrow> \<forall>x y. P x \<longrightarrow> P y \<longrightarrow> le x y \<Longrightarrow>
   sorted_wrt le xs \<Longrightarrow> filter P (merge le xs ys) = filter P xs @ filter P ys"
proof (induction le xs ys rule: merge.induct)
  case (1 le ys)
  then show ?case by simp
next
  case (2 le v va)
  then show ?case by simp
next
  case (3 le x xs y ys)
  note trans = "3.prems"(1) and tied = "3.prems"(2)
  have sx: "sorted_wrt le xs" and hx: "\<forall>z\<in>set xs. le x z"
    using "3.prems"(3) by simp_all
  show ?case
  proof (cases "le x y")
    case True
    have "filter P (merge le xs (y # ys)) = filter P xs @ filter P (y # ys)"
      by (rule "3.IH"(1)[OF True trans tied sx])
    then show ?thesis using True by simp
  next
    case False
    have ih: "filter P (merge le (x # xs) ys) = filter P (x # xs) @ filter P ys"
      by (rule "3.IH"(2)[OF False trans tied "3.prems"(3)])
    show ?thesis
    proof (cases "P y")
      case True
      have "\<not> P w" if "w \<in> set (x # xs)" for w
      proof
        assume "P w"
        then have "le w y" using True tied by blast
        moreover have "le x w" using that hx \<open>P w\<close> tied by auto
        ultimately have "le x y" using trans by blast
        then show False using False by simp
      qed
      then have "filter P (x # xs) = []" by (simp only: filter_empty_conv) blast
      then show ?thesis using ih False True by simp
    next
      case nP: False
      then show ?thesis using ih False by simp
    qed
  qed
qed
lemma mergesort_long:
  "\<not> length xs \<le> 1 \<Longrightarrow>
   mergesort le xs = merge le (mergesort le (take (length xs div 2) xs))
                              (mergesort le (drop (length xs div 2) xs))"
  by (subst mergesort.simps) simp

lemma mergesort_short: "length xs \<le> 1 \<Longrightarrow> mergesort le xs = xs"
  by (subst mergesort.simps) simp

lemma sorted_wrt_short: "length xs \<le> 1 \<Longrightarrow> sorted_wrt le xs"
  by (cases xs) auto

lemma sorted_wrt_mergesort:
  "\<forall>x y. le x y \<or> le y x \<Longrightarrow> \<forall>x y z. le x y \<longrightarrow> le y z \<longrightarrow> le x z \<Longrightarrow>
   sorted_wrt le (mergesort le xs)"
proof (induction le xs rule: mergesort.induct)
  case (1 le xs)
  show ?case
  proof (cases "length xs \<le> 1")
    case True
    then show ?thesis by (simp add: mergesort_short sorted_wrt_short)
  next
    case False
    have "sorted_wrt le (mergesort le (take (length xs div 2) xs))"
      and "sorted_wrt le (mergesort le (drop (length xs div 2) xs))"
      using 1 False by blast+
    then have "sorted_wrt le (merge le (mergesort le (take (length xs div 2) xs))
                                      (mergesort le (drop (length xs div 2) xs)))"
      by (rule sorted_wrt_merge[OF "1.prems"])
    then show ?thesis
      using mergesort_long[OF False, of le] by simp
  qed
qed

lemma mset_mergesort: "mset (mergesort le xs) = mset xs"
proof (induction le xs rule: mergesort.induct)
  case (1 le xs)
  show ?case
  proof (cases "length xs \<le> 1")
    case True
    then show ?thesis by (simp add: mergesort_short)
  next
    case False
    have "mset (mergesort le xs)
            = mset (take (length xs div 2) xs) + mset (drop (length xs div 2) xs)"
      using 1 False by (simp add: mergesort_long mset_merge)
    also have "\<dots> = mset (take (length xs div 2) xs @ drop (length xs div 2) xs)"
      by (simp only: mset_append)
    finally show ?thesis by simp
  qed
qed

lemma filter_mergesort:
  "\<forall>x y. le x y \<or> le y x \<Longrightarrow> \<forall>x y z. le x y \<longrightarrow> le y z \<longrightarrow> le x z \<Longrightarrow>
   \<forall>x y. P x \<longrightarrow> P y \<longrightarrow> le x y \<Longrightarrow>
   filter P (mergesort le xs) = filter P xs"
proof (induction le xs rule: mergesort.induct)
  case (1 le xs)
  show ?case
  proof (cases "length xs \<le> 1")
    case True
    then show ?thesis by (simp add: mergesort_short)
  next
    case False
    let ?l = "take (length xs div 2) xs" and ?r = "drop (length xs div 2) xs"
    have s: "sorted_wrt le (mergesort le ?l)"
      using sorted_wrt_mergesort[OF "1.prems"(1,2)] .
    have "filter P (mergesort le xs) = filter P (mergesort le ?l) @ filter P (mergesort le ?r)"
      using filter_merge[OF "1.prems"(2,3) s] mergesort_long[OF False, of le] by simp
    also have "\<dots> = filter P ?l @ filter P ?r"
      using 1 False by simp
    also have "\<dots> = filter P (?l @ ?r)" by (simp only: filter_append)
    finally show ?thesis by simp
  qed
qed

subsection \<open>The comparators\<close>

lemma keyLe_total: "keyLe f a b \<or> keyLe f b a"
  by (cases f) auto

lemma keyLe_trans: "keyLe f a b \<Longrightarrow> keyLe f b c \<Longrightarrow> keyLe f a c"
  by (cases f) auto

lemma sameKey_keyLe: "sameKey f a r \<Longrightarrow> sameKey f b r \<Longrightarrow> keyLe f a b"
  by (cases f) auto

lemma before_total: "\<forall>a b. before f d a b \<or> before f d b a"
  using keyLe_total by (cases d) auto

lemma before_trans: "\<forall>a b c. before f d a b \<longrightarrow> before f d b c \<longrightarrow> before f d a c"
  by (cases d) (auto intro: keyLe_trans)

lemma sameKey_before: "\<forall>a b. sameKey f a r \<longrightarrow> sameKey f b r \<longrightarrow> before f d a b"
  by (cases d) (auto intro: sameKey_keyLe)

subsection \<open>Slices and page counts\<close>

lemma take_drop_slice:
  "take k (drop s xs) = map (\<lambda>i. xs ! i) [min s (length xs) ..< min (s + k) (length xs)]"
proof (rule nth_equalityI)
  show "length (take k (drop s xs))
          = length (map (\<lambda>i. xs ! i) [min s (length xs) ..< min (s + k) (length xs)])"
    by (auto simp: min_def)
next
  fix i assume i: "i < length (take k (drop s xs))"
  then have a: "i < k" and b: "s + i < length xs" by auto
  then have c: "min s (length xs) = s" by simp
  have "min s (length xs) + i < min (s + k) (length xs)" using a b by simp
  then have "map (\<lambda>i. xs ! i) [min s (length xs) ..< min (s + k) (length xs)] ! i = xs ! (s + i)"
    using c a b by (simp add: min_def)
  then show "take k (drop s xs) ! i
               = map (\<lambda>i. xs ! i) [min s (length xs) ..< min (s + k) (length xs)] ! i"
    using a b by simp
qed

lemma ceiling_pages:
  fixes n :: nat and psize :: int
  assumes "1 \<le> psize"
  shows "(\<lceil>real n / real_of_int psize\<rceil> - 1) * psize < int n"
    and "int n \<le> \<lceil>real n / real_of_int psize\<rceil> * psize"
proof -
  let ?c = "\<lceil>real n / real_of_int psize\<rceil>"
  have pos: "0 < real_of_int psize" using assms by simp
  have "real_of_int ?c - 1 < real n / real_of_int psize"
    using ceiling_correct[of "real n / real_of_int psize"] by simp
  then have "(real_of_int ?c - 1) * real_of_int psize < real n"
    using pos by (simp only: pos_less_divide_eq)
  then have "real_of_int ((?c - 1) * psize) < real_of_int (int n)"
    by simp
  then show "(?c - 1) * psize < int n"
    by (simp only: of_int_less_iff)
  have "real n / real_of_int psize \<le> real_of_int ?c"
    by (rule le_of_int_ceiling)
  then have "real n \<le> real_of_int ?c * real_of_int psize"
    using pos by (simp only: pos_divide_le_eq)
  then have "real_of_int (int n) \<le> real_of_int (?c * psize)"
    by simp
  then show "int n \<le> ?c * psize"
    by (simp only: of_int_le_iff)
qed

section \<open>The claims\<close>

subsection \<open>C1: what the summary request carries\<close>

text \<open>
  C1, as stated, fails. With the search term \<open>bob\<close> active the transactions request
  carries \<open>search = bob\<close> and the summary request carries no search parameter. On the
  sample dataset the paginated query then matches one record while the summary counts
  all three.
\<close>

theorem summary_request_search_counterexample:
  "transactionsParams (initialState\<lparr>debouncedSearchQuery := ''bob''\<rparr>) ''search''
     = Some (Str ''bob'')
   \<and> summaryParams (initialState\<lparr>debouncedSearchQuery := ''bob''\<rparr>) ''search'' = None
   \<and> map_sum id total
        (queryTransactions sampleDataset
           (transactionsParams (initialState\<lparr>debouncedSearchQuery := ''bob''\<rparr>))) = Inr 1
   \<and> map_sum id total_sales_records
        (querySummary sampleDataset
           (summaryParams (initialState\<lparr>debouncedSearchQuery := ''bob''\<rparr>))) = Inr 3"
  by code_simp

text \<open>
  C1, amended. For every query state the summary request is exactly the filter
  parameters: it never carries a search parameter, and it agrees with the transactions
  request on every parameter other than page, page_size, sort_by, sort_order and search.
  So \<open>total_sales_records\<close> is the number of records matching the filters alone; it
  equals the \<open>total\<close> of the transactions query whenever the search string is empty after
  trimming and both queries succeed.
\<close>

theorem summary_request_filters_only:
  "summaryParams st = buildFilterParams (filters st)
   \<and> summaryParams st ''search'' = None
   \<and> (\<forall>k. k \<notin> {''page'', ''page_size'', ''sort_by'', ''sort_order'', ''search''}
          \<longrightarrow> transactionsParams st k = summaryParams st k)
   \<and> (\<forall>s. querySummary dataset (summaryParams st) = Inr s
          \<longrightarrow> total_sales_records s
                = int (length (evaluate dataset (predicate (buildFilterParams (filters st))))))
   \<and> (\<forall>resp s. trim (debouncedSearchQuery st) = []
          \<and> queryTransactions dataset (transactionsParams st) = Inr resp
          \<and> querySummary dataset (summaryParams st) = Inr s
          \<longrightarrow> total_sales_records s = total resp)"
proof (intro conjI allI impI)
  show "summaryParams st = buildFilterParams (filters st)"
    by (simp add: summaryParams_def)
  show "summaryParams st ''search'' = None"
    by (simp add: summaryParams_def buildFilterParams_search)
  show "transactionsParams st k = summaryParams st k"
    if "k \<notin> {''page'', ''page_size'', ''sort_by'', ''sort_order'', ''search''}" for k
    using transactionsParams_filter_key[OF that] by (simp only: summaryParams_def)
  show "total_sales_records s
          = int (length (evaluate dataset (predicate (buildFilterParams (filters st)))))"
    if "querySummary dataset (summaryParams st) = Inr s" for s
    using that
    by (auto simp: querySummary_def summaryParams_def aggregate_def split: option.splits)
  show "total_sales_records s = total resp"
    if h: "trim (debouncedSearchQuery st) = []
          \<and> queryTransactions dataset (transactionsParams st) = Inr resp
          \<and> querySummary dataset (summaryParams st) = Inr s" for resp s
  proof -
    have p: "predicate (transactionsParams st) = predicate (summaryParams st)"
      using h by (simp add: predicate_same_filters)
    have "total resp = int (length (evaluate dataset (predicate (transactionsParams st))))"
      using h
      by (auto simp: queryTransactions_def Let_def
               split: option.splits prod.splits sum.splits)
    moreover have "total_sales_records s
                     = int (length (evaluate dataset (predicate (summaryParams st))))"
      using h by (auto simp: querySummary_def aggregate_def split: option.splits)
    ultimately show ?thesis using p by simp
  qed
qed

text \<open>C1, witness: with the gender filter \<open>Male\<close> and no search term both queries on the
  sample dataset succeed and count one record; with a search string of a space, a
  no-break space and a tab and no filter both count all three.\<close>

theorem summary_request_filters_only_witness:
  "trim (debouncedSearchQuery maleOnly) = []
   \<and> summaryParams maleOnly ''search'' = None
   \<and> map_sum id total (queryTransactions sampleDataset (transactionsParams maleOnly)) = Inr 1
   \<and> map_sum id total_sales_records (querySummary sampleDataset (summaryParams maleOnly)) = Inr 1
   \<and> trim (debouncedSearchQuery blankSearch) = []
   \<and> map_sum id total (queryTransactions sampleDataset (transactionsParams blankSearch)) = Inr 3
   \<and> map_sum id total_sales_records (querySummary sampleDataset (summaryParams blankSearch))
       = Inr 3"
proof -
  have t: "trim (debouncedSearchQuery maleOnly) = []"
    by code_simp
  have q: "queryTransactions sampleDataset (transactionsParams maleOnly)
             = Inr \<lparr>transactions = [bob], total = 1, page = 1, page_size = 10, total_pages = 1\<rparr>"
    by code_simp
  have s: "querySummary sampleDataset (summaryParams maleOnly)
             = Inr \<lparr>total_units_sold = 5, total_amount = 500, total_discount = 50,
                    total_sales_records = 1\<rparr>"
    by code_simp
  note th = summary_request_filters_only[of maleOnly sampleDataset]
  note eq = th[THEN conjunct2, THEN conjunct2, THEN conjunct2, THEN conjunct2, rule_format,
      OF conjI[OF t conjI[OF q s]]]
  have t': "trim (debouncedSearchQuery blankSearch) = []"
    by code_simp
  have q': "queryTransactions sampleDataset (transactionsParams blankSearch)
             = Inr \<lparr>transactions = [bob, alice, alice2], total = 3, page = 1, page_size = 10,
                    total_pages = 1\<rparr>"
    by code_simp
  have s': "querySummary sampleDataset (summaryParams blankSearch)
             = Inr \<lparr>total_units_sold = 8, total_amount = 800, total_discount = 80,
                    total_sales_records = 3\<rparr>"
    by code_simp
  note th' = summary_request_filters_only[of blankSearch sampleDataset]
  note eq' = th'[THEN conjunct2, THEN conjunct2, THEN conjunct2, THEN conjunct2, rule_format,
      OF conjI[OF t' conjI[OF q' s']]]
  have n: "summaryParams maleOnly ''search'' = None"
    by (rule th[THEN conjunct2, THEN conjunct1])
  show ?thesis
    using t q s eq t' q' s' eq' n by simp
qed

subsection \<open>C2: what a click on a sort option passes on\<close>

text \<open>
  C2 fails on the code. The six options, in the order of the dropdown, call
  \<open>onSortChange\<close> with the pairs below. The four date and quantity options pass their
  field and direction. Clicking \<open>Customer Name (A-Z)\<close>, whose value is
  \<open>customer_name_asc\<close>, passes field \<open>customer\<close> and order \<open>name\<close>, and so does
  \<open>Customer Name (Z-A)\<close>: the value is split at every underscore and only the first two
  pieces are kept. That field is not one of date, quantity, customer_name and that order
  is not asc or desc.
\<close>

theorem sort_option_click_splits_field_name:
  "map optionClick sortOptions =
     [(Some ''date'', Some ''desc''), (Some ''date'', Some ''asc''),
      (Some ''quantity'', Some ''desc''), (Some ''quantity'', Some ''asc''),
      (Some ''customer'', Some ''name''), (Some ''customer'', Some ''name'')]"
  by (simp add: sortOptions_def optionClick_def destructure2_def)

subsection \<open>C3: the sort is stable\<close>

text \<open>
  C3. For every sequence, every supported sort field and both directions, the records
  whose sort key equals that of any given record \<open>r\<close> appear in the sorted output in
  their order in the input; the key of \<open>customer_name\<close> is the lower-cased name, so names
  that differ only by case are tied. The output is ordered by the comparator of the
  direction and is a rearrangement of the input.
\<close>

theorem sorter_stable:
  "filter (\<lambda>a. sameKey f a r) (sorter xs f d) = filter (\<lambda>a. sameKey f a r) xs
   \<and> sorted_wrt (before f d) (sorter xs f d)
   \<and> mset (sorter xs f d) = mset xs"
proof -
  have "filter (\<lambda>a. sameKey f a r) (mergesort (before f d) xs) = filter (\<lambda>a. sameKey f a r) xs"
    by (rule filter_mergesort[OF before_total before_trans sameKey_before])
  moreover have "sorted_wrt (before f d) (mergesort (before f d) xs)"
    by (rule sorted_wrt_mergesort[OF before_total before_trans])
  ultimately show ?thesis by (simp add: sorter_def mset_mergesort)
qed

text \<open>C3, witness: the names \<open>bob\<close>, \<open>Alice\<close>, \<open>alice\<close> sorted by customer name;
  \<open>Alice\<close> stays in front of \<open>alice\<close> in both directions. Three names that differ only
  by the case of a Latin-1 letter keep their order.\<close>

theorem sorter_stable_witness:
  "sorter [bob, alice, alice2] Customer_name Asc = [alice, alice2, bob]
   \<and> filter (\<lambda>a. sameKey Customer_name a alice2) (sorter [bob, alice, alice2] Customer_name Asc)
       = [alice, alice2]
   \<and> filter (\<lambda>a. sameKey Customer_name a alice2) (sorter [bob, alice, alice2] Customer_name Desc)
       = [alice, alice2]
   \<and> sorter [elodie21, elodie22, elodie23] Customer_name Asc = [elodie21, elodie22, elodie23]
   \<and> filter (\<lambda>a. sameKey Customer_name a elodie22)
        (sorter [elodie21, elodie22, elodie23] Customer_name Desc)
       = [elodie21, elodie22, elodie23]"
proof -
  have "sorter [bob, alice, alice2] Customer_name Asc = [alice, alice2, bob]"
    by code_simp
  moreover have "filter (\<lambda>a. sameKey Customer_name a alice2) [bob, alice, alice2] = [alice, alice2]"
    by code_simp
  moreover have "sorter [elodie21, elodie22, elodie23] Customer_name Asc
                   = [elodie21, elodie22, elodie23]"
    by code_simp
  moreover have "filter (\<lambda>a. sameKey Customer_name a elodie22) [elodie21, elodie22, elodie23]
                   = [elodie21, elodie22, elodie23]"
    by code_simp
  ultimately show ?thesis
    using sorter_stable[of Customer_name alice2 "[bob, alice, alice2]" Asc]
          sorter_stable[of Customer_name alice2 "[bob, alice, alice2]" Desc]
          sorter_stable[of Customer_name elodie22 "[elodie21, elodie22, elodie23]" Desc]
    by simp
qed

subsection \<open>C4: pagination\<close>

text \<open>
  C4. For \<open>page \<ge> 1\<close> and \<open>page_size \<ge> 1\<close> pagination succeeds; the page is the
  sub-sequence at the indices from \<open>skip = (page - 1) * page_size\<close> up to
  \<open>skip + page_size\<close>, both clipped to the length, so it is empty when \<open>skip\<close> is at or
  beyond the length; the number of pages is the ceiling of length over page size, the
  least number of pages that holds all records, and it is 0 for the empty sequence.
\<close>

theorem paginate_slice:
  assumes "1 \<le> pg" and "1 \<le> psize"
  shows "\<exists>rows pages.
           paginate ordered pg psize = Inr (rows, pages)
           \<and> rows = map (\<lambda>i. ordered ! i)
                       [min (nat ((pg - 1) * psize)) (length ordered)
                        ..< min (nat ((pg - 1) * psize) + nat psize) (length ordered)]
           \<and> (length ordered \<le> nat ((pg - 1) * psize) \<longrightarrow> rows = [])
           \<and> pages = \<lceil>real (length ordered) / real_of_int psize\<rceil>
           \<and> (pages - 1) * psize < int (length ordered)
           \<and> int (length ordered) \<le> pages * psize
           \<and> (length ordered = 0 \<longrightarrow> pages = 0)"
proof -
  let ?skip = "nat ((pg - 1) * psize)" and ?n = "length ordered"
  have "take (nat psize) (drop ?skip ordered)
          = map (\<lambda>i. ordered ! i) [min ?skip ?n ..< min (?skip + nat psize) ?n]"
    by (rule take_drop_slice)
  then show ?thesis
    using assms ceiling_pages[OF assms(2), of ?n]
    by (simp add: paginate_def Let_def)
qed

text \<open>C4, witness: five records in pages of two; page 3 holds the last record, page 4 is
  empty, and the empty sequence has no pages.\<close>

theorem paginate_slice_witness:
  "(1::int) \<le> 3 \<and> (1::int) \<le> 2
   \<and> paginate [bob, alice, alice2, bob, alice] 3 2 = Inr ([alice], 3)
   \<and> paginate [bob, alice, alice2, bob, alice] 4 2 = Inr ([], 3)
   \<and> paginate ([] :: SalesTransaction list) 1 2 = Inr ([], 0)"
proof -
  have a: "(1::int) \<le> 3" "(1::int) \<le> 4" "(1::int) \<le> 2" "(1::int) \<le> 1" by simp_all
  have "paginate [bob, alice, alice2, bob, alice] 3 2 = Inr ([alice], 3)"
    using paginate_slice[OF a(1) a(3), of "[bob, alice, alice2, bob, alice]"]
    by (auto simp: upt_rec[of 4 5] upt_rec[of 5 5])
  moreover have "paginate [bob, alice, alice2, bob, alice] 4 2 = Inr ([], 3)"
    using paginate_slice[OF a(2) a(3), of "[bob, alice, alice2, bob, alice]"]
    by auto
  moreover have "paginate ([] :: SalesTransaction list) 1 2 = Inr ([], 0)"
    using paginate_slice[OF a(4) a(3), of "[] :: SalesTransaction list"]
    by auto
  ultimately show ?thesis by simp
qed

subsection \<open>C5: the query without constraints\<close>

text \<open>
  C5. When every multi-select list is empty, \<open>age_range\<close> and \<open>date_range\<close> are empty and
  the search string is empty or consists of white space only, the transactions request
  consists of page, page_size, sort_by and sort_order alone and the summary request is
  empty: neither carries a search or a filter parameter. Evaluated on any dataset, both
  requests match every record.
\<close>

theorem empty_query_matches_entire_dataset:
  assumes "customer_regions (filters st) = []" and "genders (filters st) = []"
    and "product_categories (filters st) = []" and "tags (filters st) = []"
    and "payment_methods (filters st) = []"
    and "age_range (filters st) = []" and "date_range (filters st) = []"
    and "list_all isWhiteSpace (debouncedSearchQuery st)"
  shows "transactionsParams st =
           [''page'' \<mapsto> Num (currentPage st), ''page_size'' \<mapsto> Num pageSize,
            ''sort_by'' \<mapsto> Str (sortBy st), ''sort_order'' \<mapsto> Str (sortOrder st)]
         \<and> summaryParams st = Map.empty
         \<and> evaluate dataset (predicate (transactionsParams st)) = dataset
         \<and> evaluate dataset (predicate (summaryParams st)) = dataset"
proof -
  have b: "buildFilterParams (filters st) = Map.empty"
    using assms(1-7)
    by (simp add: buildFilterParams_def listParam_def dateParam_def ageParams_def)
  have t: "trim (debouncedSearchQuery st) = []"
    using assms(8) by (simp add: trim_eq_Nil_iff)
  have p: "transactionsParams st =
           [''page'' \<mapsto> Num (currentPage st), ''page_size'' \<mapsto> Num pageSize,
            ''sort_by'' \<mapsto> Str (sortBy st), ''sort_order'' \<mapsto> Str (sortOrder st)]"
    using b t by (simp add: transactionsParams_def Let_def)
  have s: "summaryParams st = Map.empty"
    using b by (simp add: summaryParams_def)
  have "predicate (transactionsParams st) r" for r
    by (rule predicate_no_constraints) (simp_all add: p)
  moreover have "predicate (summaryParams st) r" for r
    by (rule predicate_no_constraints) (simp_all add: s)
  ultimately show ?thesis using p s by (simp add: evaluate_def)
qed

text \<open>C5, witness: the initial state with a search string of a space, a no-break space
  and a tab.\<close>

theorem empty_query_matches_entire_dataset_witness:
  "list_all isWhiteSpace (debouncedSearchQuery blankSearch)
   \<and> transactionsParams blankSearch ''search'' = None
   \<and> summaryParams blankSearch = Map.empty
   \<and> evaluate sampleDataset (predicate (transactionsParams blankSearch)) = sampleDataset"
proof -
  have f: "customer_regions (filters blankSearch) = []" "genders (filters blankSearch) = []"
    "product_categories (filters blankSearch) = []" "tags (filters blankSearch) = []"
    "payment_methods (filters blankSearch) = []"
    "age_range (filters blankSearch) = []" "date_range (filters blankSearch) = []"
    by (simp_all add: blankSearch_def initialState_def)
  have w: "list_all isWhiteSpace (debouncedSearchQuery blankSearch)"
    by (simp add: blankSearch_def isWhiteSpace_def)
  note th = empty_query_matches_entire_dataset[OF f w, of sampleDataset]
  have p: "transactionsParams blankSearch ''search'' = None"
    by (subst conjunct1[OF th]) simp
  show ?thesis
    using w p th by blast
qed

subsection \<open>C6: list filter values are lower-case\<close>

text \<open>
  C6. Every value of customer_regions, genders, product_categories, tags and
  payment_methods that is included in the transactions request or in the summary request
  equals its own lower-cased form.
\<close>

theorem filter_values_lowercase:
  assumes "key \<in> {''customer_regions'', ''genders'', ''product_categories'', ''tags'',
                  ''payment_methods''}"
    and "transactionsParams st key = Some (StrList vs) \<or> summaryParams st key = Some (StrList vs)"
    and "v \<in> set vs"
  shows "toLowerCase v = v"
proof -
  have k: "key \<notin> {''page'', ''page_size'', ''sort_by'', ''sort_order'', ''search''}"
    using assms(1) by auto
  have "buildFilterParams (filters st) key = Some (StrList vs)"
    using assms(2) transactionsParams_filter_key[OF k] by (auto simp: summaryParams_def)
  then obtain ws where "vs = map toLowerCase ws"
    using assms(1) by (auto simp: buildFilterParams_lists split: if_splits)
  then show ?thesis using assms(3) by (auto simp: toLowerCase_idem)
qed

text \<open>C6, witness: the genders \<open>Male\<close>, \<open>FEMALE\<close> are sent as \<open>male\<close>, \<open>female\<close>, and the
  region whose first letter is the capital i with circumflex (U+00CE) with the small one
  (U+00EE) in its place.\<close>

theorem filter_values_lowercase_witness:
  "transactionsParams mixedCase ''genders'' = Some (StrList [''male'', ''female''])
   \<and> toLowerCase ''female'' = ''female''
   \<and> summaryParams mixedCase ''customer_regions''
       = Some (StrList [CHR 0xEE # ''le-de-france'', ''north''])
   \<and> toLowerCase (CHR 0xEE # ''le-de-france'') = CHR 0xEE # ''le-de-france''"
proof -
  have p: "transactionsParams mixedCase ''genders'' = Some (StrList [''male'', ''female''])"
    by code_simp
  have r: "summaryParams mixedCase ''customer_regions''
             = Some (StrList [CHR 0xEE # ''le-de-france'', ''north''])"
    by code_simp
  have "toLowerCase ''female'' = ''female''"
    by (rule filter_values_lowercase[of "''genders''" mixedCase "[''male'', ''female'']"])
       (simp_all add: p)
  moreover have "toLowerCase (CHR 0xEE # ''le-de-france'') = CHR 0xEE # ''le-de-france''"
    by (rule filter_values_lowercase[of "''customer_regions''" mixedCase
              "[CHR 0xEE # ''le-de-france'', ''north'']"])
       (simp_all add: r)
  ultimately show ?thesis using p r by simp
qed

subsection \<open>C7: the age bounds\<close>

text \<open>
  C7, as stated, fails in its last clause. The string \<open>18+-\<close> is not of the form \<open>N+\<close>
  (it ends in \<open>-\<close>) and not of the form \<open>a-b\<close> (nothing follows the \<open>-\<close>), yet the
  request contains \<open>age_min = 18\<close>.
\<close>

theorem age_params_other_string_counterexample:
  "buildFilterParams ((filters initialState)\<lparr>age_range := ''18+-''\<rparr>) ''age_min'' = Some (Num 18)
   \<and> buildFilterParams ((filters initialState)\<lparr>age_range := ''18+-''\<rparr>) ''age_max'' = None
   \<and> last ''18+-'' = CHR ''-''"
  by code_simp

text \<open>
  C7, amended. The filter parameters never hold \<open>age_min > age_max\<close>: when both are
  present then \<open>0 \<le> age_min \<le> age_max \<le> 150\<close>, and \<open>age_max\<close> is never present alone.
  Let \<open>a\<close> be the text of \<open>age_range\<close> before its first \<open>-\<close> (all of it when there is
  none) and \<open>b\<close> the text between the first and the second \<open>-\<close> (up to the end when
  there is no second).
  When \<open>b\<close> is not empty, both parameters are included, as the numbers that \<open>parseInt\<close>
  reads from \<open>a\<close> and \<open>b\<close>, if both are numbers with \<open>0 \<le> a \<le> b \<le> 150\<close>, and neither is
  included otherwise.
  When there is no \<open>-\<close> or \<open>b\<close> is empty, and \<open>a\<close> ends in \<open>+\<close>, only \<open>age_min\<close> is
  included, as the number \<open>N\<close> that \<open>parseInt\<close> reads from \<open>a\<close> without its first \<open>+\<close>, if
  \<open>0 \<le> N \<le> 150\<close>, and neither is included otherwise: this holds for \<open>N+\<close> and also for
  strings such as \<open>18+-\<close>.
  In every other case neither parameter is included.
\<close>

theorem age_params_by_pieces:
  "(\<forall>x y. buildFilterParams fs ''age_min'' = Some (Num x)
          \<and> buildFilterParams fs ''age_max'' = Some (Num y) \<longrightarrow> 0 \<le> x \<and> x \<le> y \<and> y \<le> 150)
   \<and> (buildFilterParams fs ''age_max'' \<noteq> None \<longrightarrow> buildFilterParams fs ''age_min'' \<noteq> None)
   \<and> (\<forall>a b rest.
          age_range fs = a @ CHR ''-'' # b @ rest
          \<and> CHR ''-'' \<notin> set a \<and> CHR ''-'' \<notin> set b \<and> b \<noteq> []
          \<and> (rest = [] \<or> hd rest = CHR ''-'') \<longrightarrow>
          (buildFilterParams fs ''age_min'', buildFilterParams fs ''age_max'') =
            (case (parseInt a, parseInt b) of
               (Some x, Some y) \<Rightarrow>
                 if 0 \<le> x \<and> x \<le> y \<and> y \<le> 150 then (Some (Num x), Some (Num y))
                 else (None, None)
             | _ \<Rightarrow> (None, None)))
   \<and> (\<forall>a rest u v.
          CHR ''-'' \<notin> set a
          \<and> (age_range fs = a
              \<or> age_range fs = a @ CHR ''-'' # rest \<and> (rest = [] \<or> hd rest = CHR ''-''))
          \<and> a = u @ CHR ''+'' # v \<and> CHR ''+'' \<notin> set u \<and> last a = CHR ''+'' \<longrightarrow>
          (buildFilterParams fs ''age_min'', buildFilterParams fs ''age_max'') =
            (case parseInt (u @ v) of
               Some n \<Rightarrow> if 0 \<le> n \<and> n \<le> 150 then (Some (Num n), None) else (None, None)
             | None \<Rightarrow> (None, None)))
   \<and> (\<forall>a rest.
          CHR ''-'' \<notin> set a
          \<and> (age_range fs = a
              \<or> age_range fs = a @ CHR ''-'' # rest \<and> (rest = [] \<or> hd rest = CHR ''-''))
          \<and> (a = [] \<or> last a \<noteq> CHR ''+'') \<longrightarrow>
          (buildFilterParams fs ''age_min'', buildFilterParams fs ''age_max'') = (None, None))"
proof -
  let ?pair = "(buildFilterParams fs ''age_min'', buildFilterParams fs ''age_max'')"
  obtain mn mx where d: "destructure2 (split CHR ''-'' (age_range fs)) = (Some mn, mx)"
    using destructure2_split by blast
  have c1: "\<forall>x y. buildFilterParams fs ''age_min'' = Some (Num x)
          \<and> buildFilterParams fs ''age_max'' = Some (Num y) \<longrightarrow> 0 \<le> x \<and> x \<le> y \<and> y \<le> 150"
    using d
    by (auto simp: buildFilterParams_age ageParams_def ageBoth_def agePlus_def
             split: option.splits prod.splits if_splits)
  have c2: "buildFilterParams fs ''age_max'' \<noteq> None \<longrightarrow> buildFilterParams fs ''age_min'' \<noteq> None"
    using d
    by (auto simp: buildFilterParams_age ageParams_def ageBoth_def agePlus_def
             split: option.splits prod.splits if_splits)
  have c3: "\<forall>a b rest.
          age_range fs = a @ CHR ''-'' # b @ rest
          \<and> CHR ''-'' \<notin> set a \<and> CHR ''-'' \<notin> set b \<and> b \<noteq> []
          \<and> (rest = [] \<or> hd rest = CHR ''-'') \<longrightarrow>
          ?pair =
            (case (parseInt a, parseInt b) of
               (Some x, Some y) \<Rightarrow>
                 if 0 \<le> x \<and> x \<le> y \<and> y \<le> 150 then (Some (Num x), Some (Num y))
                 else (None, None)
             | _ \<Rightarrow> (None, None))"
  proof (intro allI impI)
    fix a b rest
    assume h: "age_range fs = a @ CHR ''-'' # b @ rest
          \<and> CHR ''-'' \<notin> set a \<and> CHR ''-'' \<notin> set b \<and> b \<noteq> []
          \<and> (rest = [] \<or> hd rest = CHR ''-'')"
    then have p: "destructure2 (split CHR ''-'' (age_range fs)) = (Some a, Some b)"
      using pieces_two[of a b rest] by simp
    have nb: "b \<noteq> []" using h by simp
    show "?pair =
            (case (parseInt a, parseInt b) of
               (Some x, Some y) \<Rightarrow>
                 if 0 \<le> x \<and> x \<le> y \<and> y \<le> 150 then (Some (Num x), Some (Num y))
                 else (None, None)
             | _ \<Rightarrow> (None, None))"
      using age_pair_both[OF p nb] by (simp only: buildFilterParams_age)
  qed
  have c4: "\<forall>a rest u v.
          CHR ''-'' \<notin> set a
          \<and> (age_range fs = a
              \<or> age_range fs = a @ CHR ''-'' # rest \<and> (rest = [] \<or> hd rest = CHR ''-''))
          \<and> a = u @ CHR ''+'' # v \<and> CHR ''+'' \<notin> set u \<and> last a = CHR ''+'' \<longrightarrow>
          ?pair =
            (case parseInt (u @ v) of
               Some n \<Rightarrow> if 0 \<le> n \<and> n \<le> 150 then (Some (Num n), None) else (None, None)
             | None \<Rightarrow> (None, None))"
  proof (intro allI impI)
    fix a rest u v
    assume h: "CHR ''-'' \<notin> set a
          \<and> (age_range fs = a
              \<or> age_range fs = a @ CHR ''-'' # rest \<and> (rest = [] \<or> hd rest = CHR ''-''))
          \<and> a = u @ CHR ''+'' # v \<and> CHR ''+'' \<notin> set u \<and> last a = CHR ''+''"
    then obtain mx' where p: "destructure2 (split CHR ''-'' (age_range fs)) = (Some a, mx')"
      and m: "mx' = None \<or> mx' = Some []"
      using pieces_one[of a "age_range fs" rest] by blast
    have r: "replace CHR ''+'' [] a = u @ v"
      using h replace_at_first[of "CHR ''+''" u "[]" v] by simp
    have e: "a \<noteq> [] \<and> last a = CHR ''+''" using h by auto
    have "?pair = (ageParams (age_range fs) Map.empty ''age_min'',
                   ageParams (age_range fs) Map.empty ''age_max'')"
      by (simp only: buildFilterParams_age)
    also have "\<dots> =
            (if a \<noteq> [] \<and> last a = CHR ''+'' then
               (case parseInt (replace CHR ''+'' [] a) of
                  Some n \<Rightarrow> if 0 \<le> n \<and> n \<le> 150 then (Some (Num n), None) else (None, None)
                | None \<Rightarrow> (None, None))
             else (None, None))"
      by (rule age_pair_plus[OF p m])
    also have "\<dots> =
            (case parseInt (u @ v) of
               Some n \<Rightarrow> if 0 \<le> n \<and> n \<le> 150 then (Some (Num n), None) else (None, None)
             | None \<Rightarrow> (None, None))"
      using e r by simp
    finally show "?pair =
            (case parseInt (u @ v) of
               Some n \<Rightarrow> if 0 \<le> n \<and> n \<le> 150 then (Some (Num n), None) else (None, None)
             | None \<Rightarrow> (None, None))" .
  qed
  have c5: "\<forall>a rest.
          CHR ''-'' \<notin> set a
          \<and> (age_range fs = a
              \<or> age_range fs = a @ CHR ''-'' # rest \<and> (rest = [] \<or> hd rest = CHR ''-''))
          \<and> (a = [] \<or> last a \<noteq> CHR ''+'') \<longrightarrow>
          ?pair = (None, None)"
  proof (intro allI impI)
    fix a rest
    assume h: "CHR ''-'' \<notin> set a
          \<and> (age_range fs = a
              \<or> age_range fs = a @ CHR ''-'' # rest \<and> (rest = [] \<or> hd rest = CHR ''-''))
          \<and> (a = [] \<or> last a \<noteq> CHR ''+'')"
    then obtain mx' where p: "destructure2 (split CHR ''-'' (age_range fs)) = (Some a, mx')"
      and m: "mx' = None \<or> mx' = Some []"
      using pieces_one[of a "age_range fs" rest] by blast
    have e: "\<not> (a \<noteq> [] \<and> last a = CHR ''+'')" using h by auto
    have "?pair = (ageParams (age_range fs) Map.empty ''age_min'',
                   ageParams (age_range fs) Map.empty ''age_max'')"
      by (simp only: buildFilterParams_age)
    also have "\<dots> =
            (if a \<noteq> [] \<and> last a = CHR ''+'' then
               (case parseInt (replace CHR ''+'' [] a) of
                  Some n \<Rightarrow> if 0 \<le> n \<and> n \<le> 150 then (Some (Num n), None) else (None, None)
                | None \<Rightarrow> (None, None))
             else (None, None))"
      by (rule age_pair_plus[OF p m])
    also have "\<dots> = (None, None)"
      using e by auto
    finally show "?pair = (None, None)" .
  qed
  show ?thesis
    by (rule conjI[OF c1 conjI[OF c2 conjI[OF c3 conjI[OF c4 c5]]]])
qed

text \<open>C7, witness: the ranges \<open>18-25\<close> and \<open>65+\<close> of the dropdown, the first one also
  behind a no-break space, an inverted range, the string \<open>18+-\<close>, and a string of
  neither form.\<close>

theorem age_params_by_pieces_witness:
  "ageRequest ''18-25'' = (Some (Num 18), Some (Num 25))
   \<and> ageRequest (CHR 0xA0 # ''18-25'') = (Some (Num 18), Some (Num 25))
   \<and> ageRequest ''40-30'' = (None, None)
   \<and> ageRequest ''65+'' = (Some (Num 65), None)
   \<and> ageRequest ''18+-'' = (Some (Num 18), None)
   \<and> ageRequest ''senior'' = (None, None)"
proof -
  let ?fs = "\<lambda>r. (filters initialState)\<lparr>age_range := r\<rparr>"
  have p: "parseInt ''18'' = Some 18" "parseInt ''25'' = Some 25" "parseInt ''40'' = Some 40"
    "parseInt ''30'' = Some 30" "parseInt (''65'' @ []) = Some 65"
    "parseInt (''18'' @ []) = Some 18" "parseInt (CHR 0xA0 # ''18'') = Some 18"
    by code_simp+
  have h1: "age_range (?fs ''18-25'') = ''18'' @ CHR ''-'' # ''25'' @ []
      \<and> CHR ''-'' \<notin> set ''18'' \<and> CHR ''-'' \<notin> set ''25'' \<and> ''25'' \<noteq> []
      \<and> ([] = [] \<or> hd [] = CHR ''-'')"
    by simp
  have h2: "age_range (?fs (CHR 0xA0 # ''18-25'')) = (CHR 0xA0 # ''18'') @ CHR ''-'' # ''25'' @ []
      \<and> CHR ''-'' \<notin> set (CHR 0xA0 # ''18'') \<and> CHR ''-'' \<notin> set ''25'' \<and> ''25'' \<noteq> []
      \<and> ([] = [] \<or> hd [] = CHR ''-'')"
    by simp
  have h3: "age_range (?fs ''40-30'') = ''40'' @ CHR ''-'' # ''30'' @ []
      \<and> CHR ''-'' \<notin> set ''40'' \<and> CHR ''-'' \<notin> set ''30'' \<and> ''30'' \<noteq> []
      \<and> ([] = [] \<or> hd [] = CHR ''-'')"
    by simp
  have h4: "CHR ''-'' \<notin> set ''65+''
      \<and> (age_range (?fs ''65+'') = ''65+''
          \<or> age_range (?fs ''65+'') = ''65+'' @ CHR ''-'' # [] \<and> ([] = [] \<or> hd [] = CHR ''-''))
      \<and> ''65+'' = ''65'' @ CHR ''+'' # [] \<and> CHR ''+'' \<notin> set ''65'' \<and> last ''65+'' = CHR ''+''"
    by simp
  have h5: "CHR ''-'' \<notin> set ''18+''
      \<and> (age_range (?fs ''18+-'') = ''18+''
          \<or> age_range (?fs ''18+-'') = ''18+'' @ CHR ''-'' # [] \<and> ([] = [] \<or> hd [] = CHR ''-''))
      \<and> ''18+'' = ''18'' @ CHR ''+'' # [] \<and> CHR ''+'' \<notin> set ''18'' \<and> last ''18+'' = CHR ''+''"
    by simp
  have h6: "CHR ''-'' \<notin> set ''senior''
      \<and> (age_range (?fs ''senior'') = ''senior''
          \<or> age_range (?fs ''senior'') = ''senior'' @ CHR ''-'' # [] \<and> ([] = [] \<or> hd [] = CHR ''-''))
      \<and> (''senior'' = [] \<or> last ''senior'' \<noteq> CHR ''+'')"
    by simp
  note c1 = age_params_by_pieces[of "?fs ''18-25''",
      THEN conjunct2, THEN conjunct2, THEN conjunct1, rule_format, OF h1]
  note c2 = age_params_by_pieces[of "?fs (CHR 0xA0 # ''18-25'')",
      THEN conjunct2, THEN conjunct2, THEN conjunct1, rule_format, OF h2]
  note c3 = age_params_by_pieces[of "?fs ''40-30''",
      THEN conjunct2, THEN conjunct2, THEN conjunct1, rule_format, OF h3]
  note c4 = age_params_by_pieces[of "?fs ''65+''",
      THEN conjunct2, THEN conjunct2, THEN conjunct2, THEN conjunct1, rule_format, OF h4]
  note c5 = age_params_by_pieces[of "?fs ''18+-''",
      THEN conjunct2, THEN conjunct2, THEN conjunct2, THEN conjunct1, rule_format, OF h5]
  note c6 = age_params_by_pieces[of "?fs ''senior''",
      THEN conjunct2, THEN conjunct2, THEN conjunct2, THEN conjunct2, rule_format, OF h6]
  have "ageRequest ''18-25'' = (Some (Num 18), Some (Num 25))"
    unfolding ageRequest_def by (simp only: c1 p prod.case option.case) simp
  moreover have "ageRequest (CHR 0xA0 # ''18-25'') = (Some (Num 18), Some (Num 25))"
    unfolding ageRequest_def by (simp only: c2 p prod.case option.case) simp
  moreover have "ageRequest ''40-30'' = (None, None)"
    unfolding ageRequest_def by (simp only: c3 p prod.case option.case) simp
  moreover have "ageRequest ''65+'' = (Some (Num 65), None)"
    unfolding ageRequest_def by (simp only: c4 p prod.case option.case) simp
  moreover have "ageRequest ''18+-'' = (Some (Num 18), None)"
    unfolding ageRequest_def by (simp only: c5 p prod.case option.case) simp
  moreover have "ageRequest ''senior'' = (None, None)"
    unfolding ageRequest_def by (simp only: c6)
  ultimately show ?thesis by (intro conjI)
qed

subsection \<open>C8: a failed fetch\<close>

text \<open>
  C8. When the fetch fails with a response of status 400, the message shown is the
  response's \<open>detail\<close> (the fixed text \<open>Invalid filter parameters\<close> when there is none), and
  the displayed transactions, total, number of pages and summary stay as they were.
  When it fails in any other way (another status, or no response at all) the displayed
  result becomes the empty one: no transactions, total 0, 0 pages, all summary sums 0,
  and no message is shown.
\<close>

theorem fetchData_error_handling:
  "(status r = 400 \<longrightarrow>
      alerts (fetchData st (Rejected (Some r))) = alerts st @ [errorMessage r]
      \<and> (\<forall>d. detail r = Some d \<and> d \<noteq> [] \<longrightarrow> errorMessage r = d)
      \<and> transactions_st (fetchData st (Rejected (Some r))) = transactions_st st
      \<and> total_st (fetchData st (Rejected (Some r))) = total_st st
      \<and> totalPages (fetchData st (Rejected (Some r))) = totalPages st
      \<and> summary (fetchData st (Rejected (Some r))) = summary st)
   \<and> (e = None \<or> (\<exists>r'. e = Some r' \<and> status r' \<noteq> 400) \<longrightarrow>
      transactions_st (fetchData st (Rejected e)) = []
      \<and> total_st (fetchData st (Rejected e)) = 0
      \<and> totalPages (fetchData st (Rejected e)) = 0
      \<and> summary (fetchData st (Rejected e)) =
           \<lparr>total_units_sold = 0, total_amount = 0, total_discount = 0,
            total_sales_records = 0\<rparr>
      \<and> alerts (fetchData st (Rejected e)) = alerts st)"
  by (auto simp: fetchData_def Let_def resetResults_def emptySummary_def errorMessage_def)

text \<open>C8, witness: a loaded page receiving a 400 response with a detail, and a 500
  response.\<close>

theorem fetchData_error_handling_witness:
  "status badRequest = 400
   \<and> alerts (fetchData loaded (Rejected (Some badRequest)))
       = [''age_min cannot be greater than age_max'']
   \<and> transactions_st (fetchData loaded (Rejected (Some badRequest))) = [bob]
   \<and> total_st (fetchData loaded (Rejected (Some badRequest))) = 1
   \<and> status serverError \<noteq> 400
   \<and> transactions_st (fetchData loaded (Rejected (Some serverError))) = []
   \<and> total_st (fetchData loaded (Rejected (Some serverError))) = 0
   \<and> totalPages (fetchData loaded (Rejected (Some serverError))) = 0"
proof -
  have a: "status badRequest = 400" "status serverError \<noteq> 400"
    by (simp_all add: badRequest_def serverError_def)
  have m: "errorMessage badRequest = ''age_min cannot be greater than age_max''"
    by (simp add: errorMessage_def badRequest_def)
  have l: "alerts loaded = []" "transactions_st loaded = [bob]" "total_st loaded = 1"
    by (simp_all add: loaded_def initialState_def)
  show ?thesis
    using fetchData_error_handling[of badRequest loaded None]
      fetchData_error_handling[of badRequest loaded "Some serverError"] a m l
    by simp
qed

subsection \<open>C9: the search parameter\<close>

text \<open>
  C9. The transactions request includes a search parameter exactly when the debounced
  search string is not empty after trimming, and its value is then the trimmed string.
\<close>

theorem search_param_iff_trimmed:
  "transactionsParams st ''search'' =
     (if trim (debouncedSearchQuery st) \<noteq> []
      then Some (Str (trim (debouncedSearchQuery st))) else None)"
  by (rule transactionsParams_search)

text \<open>C9, witness: a search term padded with spaces and no-break spaces is sent trimmed;
  one of a space, a no-break space and a tab is not sent.\<close>

theorem search_param_iff_trimmed_witness:
  "transactionsParams paddedSearch ''search'' = Some (Str ''bob'')
   \<and> transactionsParams blankSearch ''search'' = None"
proof -
  have "trim (debouncedSearchQuery paddedSearch) = ''bob''"
    and "trim (debouncedSearchQuery blankSearch) = []"
    by code_simp+
  then show ?thesis
    using search_param_iff_trimmed[of paddedSearch] search_param_iff_trimmed[of blankSearch]
    by simp
qed

subsection \<open>C10: the date filter is a lower bound only\<close>

text \<open>
  C10. In both requests \<open>date_from\<close> is present exactly when \<open>date_range\<close> is not empty,
  and it is then the selected value; neither request ever contains \<open>date_to\<close>.
\<close>

theorem date_filter_lower_bound_only:
  "transactionsParams st ''date_from''
     = (if date_range (filters st) \<noteq> [] then Some (Str (date_range (filters st))) else None)
   \<and> summaryParams st ''date_from''
     = (if date_range (filters st) \<noteq> [] then Some (Str (date_range (filters st))) else None)
   \<and> transactionsParams st ''date_to'' = None
   \<and> summaryParams st ''date_to'' = None"
  by (simp add: transactionsParams_filter_key summaryParams_def buildFilterParams_date_to
        buildFilterParams_date_from)

text \<open>C10, witness: a selected date, and the initial state without one.\<close>

theorem date_filter_lower_bound_only_witness:
  "transactionsParams sinceMarch ''date_from'' = Some (Str ''2023-03-01'')
   \<and> summaryParams sinceMarch ''date_from'' = Some (Str ''2023-03-01'')
   \<and> transactionsParams sinceMarch ''date_to'' = None
   \<and> transactionsParams initialState ''date_from'' = None"
proof -
  have "date_range (filters sinceMarch) = ''2023-03-01''"
    and "date_range (filters initialState) = []"
    by (simp_all add: sinceMarch_def initialState_def)
  then show ?thesis
    using date_filter_lower_bound_only[of sinceMarch] date_filter_lower_bound_only[of initialState]
    by simp
qed

end
